theory Spec2Isabelle
  imports Complex_Main "HOL-Library.AList" "HOL-Library.Log_Nat"
begin

section \<open>The evaluation pass of T5DST (\<^verbatim>\<open>evaluate_model\<close> in T5.py)\<close>

text \<open>
  The pass folds the generated slot values of a test loader into two dictionaries,
  \<^verbatim>\<open>predictions\<close> and \<^verbatim>\<open>slot_logger\<close>, finalises the per-slot accuracies and dumps three
  JSON files. The generator, the tokenizer and \<^verbatim>\<open>evaluate_metrics\<close> are external: the
  generated text is a field of each row, and \<^verbatim>\<open>evaluate_metrics\<close> is a parameter.

  Python dictionaries keep insertion order, so they are association lists here:
  \<open>map_of\<close> is the lookup, \<open>AList.update\<close> replaces the value of a present key in
  place and appends an absent key at the end, as a dictionary store does.
\<close>

subsection \<open>Data\<close>

datatype py_error = KeyError | IndexError | ZeroDivisionError | OverflowError

text \<open>
  One row of a batch: the columns \<^verbatim>\<open>batch["ID"][idx]\<close>, \<^verbatim>\<open>batch["domains"][idx]\<close>,
  \<^verbatim>\<open>batch["turn_id"][idx]\<close>, \<^verbatim>\<open>batch["turn_belief"][idx]\<close>, \<^verbatim>\<open>batch["slot_text"][idx]\<close>,
  \<^verbatim>\<open>batch["value_text"][idx]\<close>, and the decoded generation \<^verbatim>\<open>value_batch[idx]\<close>.
\<close>

record example =
  batch_ID :: string
  batch_domains :: "string list"
  batch_turn_id :: int
  batch_turn_belief :: "string list"
  batch_slot_text :: string
  batch_value_text :: string
  gen_value :: string

text \<open>The value of \<^verbatim>\<open>predictions[dial_id]["turns"][turn_id]\<close>.\<close>

record turn =
  turn_belief :: "string list"
  pred_belief :: "string list"

text \<open>The value of \<^verbatim>\<open>predictions[dial_id]\<close>.\<close>

record dialogue =
  domain :: string
  turns :: "(int \<times> turn) list"

type_synonym predictions = "(string \<times> dialogue) list"

text \<open>
  An entry of \<^verbatim>\<open>slot_logger\<close> is the three-element list \<^verbatim>\<open>[total, hit, ratio]\<close>: index 0
  is the first component, index 1 the second, index 2 the third. The first two are Python
  integers. The third is the integer 0 until the logger is finalised and a double
  afterwards; it is kept as the rational number that the stored value denotes (every
  finite double is one; the sign of a zero is not kept).
\<close>

type_synonym slot_log = "int \<times> int \<times> rat"

type_synonym slot_logger = "(string \<times> slot_log) list"

record state =
  predictions :: predictions
  slot_logger :: slot_logger

subsection \<open>The accumulator: lines 152 to 166\<close>

text \<open>
  \<^verbatim>\<open>if dial_id not in predictions\<close>: create the dialogue with the first listed domain of
  the row (an empty list has no element 0) and no turns.
\<close>

definition new_dialogue :: "predictions \<Rightarrow> example \<Rightarrow> py_error + predictions" where
  "new_dialogue p e =
     (if map_of p (batch_ID e) = None
      then (case batch_domains e of
              [] \<Rightarrow> Inl IndexError
            | d # _ \<Rightarrow> Inr (AList.update (batch_ID e) \<lparr>domain = d, turns = []\<rparr> p))
      else Inr p)"

text \<open>
  \<^verbatim>\<open>if batch["turn_id"][idx] not in predictions[dial_id]["turns"]\<close>: create the turn with
  the row's turn belief and an empty predicted belief.
\<close>

definition new_turn :: "predictions \<Rightarrow> example \<Rightarrow> py_error + predictions" where
  "new_turn p e =
     (case map_of p (batch_ID e) of
        None \<Rightarrow> Inl KeyError
      | Some dlg \<Rightarrow>
          (if map_of (turns dlg) (batch_turn_id e) = None
           then Inr (AList.update (batch_ID e)
                  (dlg\<lparr>turns := AList.update (batch_turn_id e)
                     \<lparr>turn_belief = batch_turn_belief e, pred_belief = []\<rparr> (turns dlg)\<rparr>) p)
           else Inr p))"

text \<open>
  \<^verbatim>\<open>if value != "none"\<close>: append \<^verbatim>\<open>slot_text + "-" + value\<close> to the turn's predicted belief.
\<close>

definition append_pred :: "predictions \<Rightarrow> example \<Rightarrow> py_error + predictions" where
  "append_pred p e =
     (if gen_value e \<noteq> ''none''
      then (case map_of p (batch_ID e) of
              None \<Rightarrow> Inl KeyError
            | Some dlg \<Rightarrow>
                (case map_of (turns dlg) (batch_turn_id e) of
                   None \<Rightarrow> Inl KeyError
                 | Some t \<Rightarrow>
                     Inr (AList.update (batch_ID e)
                       (dlg\<lparr>turns := AList.update (batch_turn_id e)
                          (t\<lparr>pred_belief := pred_belief t @ [batch_slot_text e @ ''-'' @ gen_value e]\<rparr>)
                          (turns dlg)\<rparr>) p)))
      else Inr p)"

definition ingest :: "predictions \<Rightarrow> example \<Rightarrow> py_error + predictions" where
  "ingest p e =
     (case new_dialogue p e of
        Inl err \<Rightarrow> Inl err
      | Inr p1 \<Rightarrow>
          (case new_turn p1 e of
             Inl err \<Rightarrow> Inl err
           | Inr p2 \<Rightarrow> append_pred p2 e))"

subsection \<open>The slot logger: lines 139 and 168 to 174\<close>

text \<open>\<^verbatim>\<open>{slot_name: [0, 0, 0] for slot_name in ALL_SLOTS}\<close>\<close>

definition init_slot_logger :: "string list \<Rightarrow> slot_logger" where
  "init_slot_logger ALL_SLOTS = fold (\<lambda>slot_name lg. AList.update slot_name (0, 0, 0) lg) ALL_SLOTS []"

text \<open>
  The hit is counted first, when the generated text equals the ground-truth text, then
  the total; both index the logger by the row's slot text, which raises on a missing key.
\<close>

definition record_slot :: "slot_logger \<Rightarrow> example \<Rightarrow> py_error + slot_logger" where
  "record_slot lg e =
     (case (if gen_value e = batch_value_text e
            then (case map_of lg (batch_slot_text e) of
                    None \<Rightarrow> Inl KeyError
                  | Some (t, h, a) \<Rightarrow> Inr (AList.update (batch_slot_text e) (t, h + 1, a) lg))
            else Inr lg) of
        Inl err \<Rightarrow> Inl err
      | Inr lg1 \<Rightarrow>
          (case map_of lg1 (batch_slot_text e) of
             None \<Rightarrow> Inl KeyError
           | Some (t, h, a) \<Rightarrow> Inr (AList.update (batch_slot_text e) (t + 1, h, a) lg1)))"

text \<open>
  Python's \<^verbatim>\<open>a / b\<close> on two integers: it raises on a zero divisor, and otherwise returns
  the double nearest to the exact quotient, ties going to the even significand, or raises
  when that is beyond the largest double. With \<open>2 ^ e \<le> |a / b| < 2 ^ (e + 1)\<close>, the doubles
  around the quotient are the multiples of \<open>2 ^ k\<close>, where \<open>k = max e (- 1022) - 52\<close> (53
  significant bits, fewer below the normal range); \<open>round_half_even n d\<close> is the integer
  nearest to \<open>n / d\<close>.
\<close>

definition round_half_even :: "int \<Rightarrow> int \<Rightarrow> int" where
  "round_half_even n d =
     (let f = n div d; r = n mod d
      in if 2 * r < d then f
         else if d < 2 * r then f + 1
         else if even f then f else f + 1)"

definition true_divide :: "int \<Rightarrow> int \<Rightarrow> py_error + rat" where
  "true_divide a b =
     (if b = 0 then Inl ZeroDivisionError
      else if a = 0 then Inr 0
      else
        (let e0 = bitlen \<bar>a\<bar> - bitlen \<bar>b\<bar>;
             e = (if \<bar>b\<bar> * 2 ^ nat e0 \<le> \<bar>a\<bar> * 2 ^ nat (- e0) then e0 else e0 - 1);
             k = max e (- 1022) - 52;
             m = round_half_even (\<bar>a\<bar> * 2 ^ nat (- k)) (\<bar>b\<bar> * 2 ^ nat k)
         in if 2 ^ 1024 * 2 ^ nat (- k) \<le> m * 2 ^ nat k then Inl OverflowError
            else Inr ((if (a < 0) = (b < 0) then 1 else - 1) *
                      (of_int (m * 2 ^ nat k) / of_int (2 ^ nat (- k))))))"

text \<open>
  \<^verbatim>\<open>for slot_log in slot_logger.values(): slot_log[2] = slot_log[1] / slot_log[0]\<close>,
  in the dictionary's order; the first division that raises ends the loop.
\<close>

fun finalize :: "slot_logger \<Rightarrow> py_error + slot_logger" where
  "finalize [] = Inr []"
| "finalize ((s, (t, h, a)) # lg) =
     (case true_divide h t of
        Inl err \<Rightarrow> Inl err
      | Inr ratio \<Rightarrow>
          (case finalize lg of
             Inl err \<Rightarrow> Inl err
           | Inr lg' \<Rightarrow> Inr ((s, (t, h, ratio)) # lg')))"

subsection \<open>The loops\<close>

definition process_example :: "state \<Rightarrow> example \<Rightarrow> py_error + state" where
  "process_example st e =
     (case ingest (predictions st) e of
        Inl err \<Rightarrow> Inl err
      | Inr p \<Rightarrow>
          (case record_slot (slot_logger st) e of
             Inl err \<Rightarrow> Inl err
           | Inr lg \<Rightarrow> Inr \<lparr>predictions = p, slot_logger = lg\<rparr>))"

fun process_batch :: "state \<Rightarrow> example list \<Rightarrow> py_error + state" where
  "process_batch st [] = Inr st"
| "process_batch st (e # es) =
     (case process_example st e of
        Inl err \<Rightarrow> Inl err
      | Inr st' \<Rightarrow> process_batch st' es)"

fun process_loader :: "state \<Rightarrow> example list list \<Rightarrow> py_error + state" where
  "process_loader st [] = Inr st"
| "process_loader st (batch # batches) =
     (case process_batch st batch of
        Inl err \<Rightarrow> Inl err
      | Inr st' \<Rightarrow> process_loader st' batches)"

definition init_state :: "string list \<Rightarrow> state" where
  "init_state ALL_SLOTS = \<lparr>predictions = [], slot_logger = init_slot_logger ALL_SLOTS\<rparr>"

subsection \<open>The whole pass\<close>

text \<open>
  What is handed to \<^verbatim>\<open>json.dump\<close>: the slot logger, the predictions, and the metrics
  dictionary with its keys in the order of the literal.
\<close>

datatype document =
  Slot_acc slot_logger
| Prediction predictions
| Metrics "(string \<times> rat) list"

text \<open>
  The outcome of a pass: the files written so far, in order, each with its name inside
  the results directory, and either the exception that ended the pass or the returned
  predictions.
\<close>

record outcome =
  files :: "(string \<times> document) list"
  result :: "py_error + predictions"

text \<open>
  \<^verbatim>\<open>evaluate_metrics\<close> lives in a module that is not part of the sources at hand; it is
  the parameter \<open>evaluate_metrics\<close>, returning (joint accuracy, F1, turn accuracy) or raising.
\<close>

definition evaluate_model ::
  "(predictions \<Rightarrow> string list \<Rightarrow> py_error + rat \<times> rat \<times> rat) \<Rightarrow>
   example list list \<Rightarrow> string list \<Rightarrow> string \<Rightarrow> outcome" where
  "evaluate_model evaluate_metrics test_loader ALL_SLOTS prefix =
     (case process_loader (init_state ALL_SLOTS) test_loader of
        Inl err \<Rightarrow> \<lparr>files = [], result = Inl err\<rparr>
      | Inr st \<Rightarrow>
          (case finalize (slot_logger st) of
             Inl err \<Rightarrow> \<lparr>files = [], result = Inl err\<rparr>
           | Inr lg \<Rightarrow>
               (let f1 = (prefix @ ''_slot_acc.json'', Slot_acc lg);
                    f2 = (prefix @ ''_prediction.json'', Prediction (predictions st))
                in (case evaluate_metrics (predictions st) ALL_SLOTS of
                      Inl err \<Rightarrow> \<lparr>files = [f1, f2], result = Inl err\<rparr>
                    | Inr (joint_acc_score, F1_score, turn_acc_score) \<Rightarrow>
                        \<lparr>files = [f1, f2,
                           (prefix @ ''_result.json'',
                            Metrics [(''Joint Acc'', joint_acc_score),
                                     (''Turn Acc'', turn_acc_score),
                                     (''Joint F1'', F1_score)])],
                         result = Inr (predictions st)\<rparr>))))"

subsection \<open>Reading the accumulator\<close>

definition lookup_turn :: "predictions \<Rightarrow> string \<Rightarrow> int \<Rightarrow> turn option" where
  "lookup_turn p d t =
     (case map_of p d of None \<Rightarrow> None | Some dlg \<Rightarrow> map_of (turns dlg) t)"

text \<open>The predicted belief of a turn; a turn not yet sighted has none.\<close>

definition pred_belief_of :: "predictions \<Rightarrow> string \<Rightarrow> int \<Rightarrow> string list" where
  "pred_belief_of p d t =
     (case lookup_turn p d t of None \<Rightarrow> [] | Some tr \<Rightarrow> pred_belief tr)"

text \<open>The accumulator alone, folded over a sequence of rows.\<close>

fun ingest_all :: "predictions \<Rightarrow> example list \<Rightarrow> py_error + predictions" where
  "ingest_all p [] = Inr p"
| "ingest_all p (e # es) =
     (case ingest p e of Inl err \<Rightarrow> Inl err | Inr p' \<Rightarrow> ingest_all p' es)"

subsection \<open>Counting rows\<close>

text \<open>The number of rows of a slot, and the number of those whose generation is the ground truth.\<close>

definition total_count :: "string \<Rightarrow> example list \<Rightarrow> int" where
  "total_count s es = int (length (filter (\<lambda>e. batch_slot_text e = s) es))"

definition hit_count :: "string \<Rightarrow> example list \<Rightarrow> int" where
  "hit_count s es =
     int (length (filter (\<lambda>e. batch_slot_text e = s \<and> gen_value e = batch_value_text e) es))"


subsection \<open>Sample rows\<close>

text \<open>Rows of one hotel dialogue, used to run the definitions on concrete input.\<close>

definition row_east :: example where
  "row_east = \<lparr>batch_ID = ''D1'', batch_domains = [''hotel''], batch_turn_id = 0,
     batch_turn_belief = [''hotel-area-east''], batch_slot_text = ''hotel-area'',
     batch_value_text = ''east'', gen_value = ''east''\<rparr>"

definition row_west :: example where
  "row_west = \<lparr>batch_ID = ''D1'', batch_domains = [''hotel''], batch_turn_id = 0,
     batch_turn_belief = [''hotel-area-west''], batch_slot_text = ''hotel-area'',
     batch_value_text = ''east'', gen_value = ''west''\<rparr>"

definition row_none :: example where
  "row_none = \<lparr>batch_ID = ''D1'', batch_domains = [''hotel''], batch_turn_id = 0,
     batch_turn_belief = [''hotel-area-east''], batch_slot_text = ''hotel-stars'',
     batch_value_text = ''none'', gen_value = ''none''\<rparr>"

definition row_train :: example where
  "row_train = \<lparr>batch_ID = ''D1'', batch_domains = [''train''], batch_turn_id = 1,
     batch_turn_belief = [''train-day-monday''], batch_slot_text = ''train-day'',
     batch_value_text = ''monday'', gen_value = ''monday''\<rparr>"


definition row_parking :: example where
  "row_parking = \<lparr>batch_ID = ''D1'', batch_domains = [''hotel''], batch_turn_id = 0,
     batch_turn_belief = [''hotel-area-east''], batch_slot_text = ''hotel-parking'',
     batch_value_text = ''yes'', gen_value = ''yes''\<rparr>"

section \<open>Properties of the accumulator\<close>

lemmas ingest_defs = ingest_def new_dialogue_def new_turn_def append_pred_def

lemmas run_defs = init_state_def init_slot_logger_def process_example_def ingest_defs record_slot_def

lemma ingest_lookup_same:
  assumes "ingest p e = Inr p'"
  shows "lookup_turn p' (batch_ID e) (batch_turn_id e) =
     Some \<lparr>turn_belief = (case lookup_turn p (batch_ID e) (batch_turn_id e) of
                            None \<Rightarrow> batch_turn_belief e | Some tr \<Rightarrow> turn_belief tr),
          pred_belief = pred_belief_of p (batch_ID e) (batch_turn_id e) @
             (if gen_value e = ''none'' then [] else [batch_slot_text e @ ''-'' @ gen_value e])\<rparr>"
  using assms
  by (auto simp: ingest_def new_dialogue_def new_turn_def append_pred_def lookup_turn_def
      pred_belief_of_def AList.update_conv'
      split: if_splits list.splits sum.splits option.splits)

lemma pred_belief_of_ingest:
  assumes "ingest p e = Inr p'"
  shows "pred_belief_of p' (batch_ID e) (batch_turn_id e) =
           pred_belief_of p (batch_ID e) (batch_turn_id e) @
             (if gen_value e = ''none'' then [] else [batch_slot_text e @ ''-'' @ gen_value e])"
  using ingest_lookup_same[OF assms] by (simp add: pred_belief_of_def)

lemma ingest_lookup_other:
  assumes "ingest p e = Inr p'" and "d \<noteq> batch_ID e \<or> t \<noteq> batch_turn_id e"
  shows "lookup_turn p' d t = lookup_turn p d t"
  using assms
  by (auto simp: ingest_def new_dialogue_def new_turn_def append_pred_def lookup_turn_def
      AList.update_conv'
      split: if_splits list.splits sum.splits option.splits)

lemma ingest_domain:
  assumes "ingest p e = Inr p'"
  shows "map_option domain (map_of p' d) =
     (if d = batch_ID e \<and> map_of p d = None then Some (hd (batch_domains e))
      else map_option domain (map_of p d))"
  using assms
  by (auto simp: ingest_def new_dialogue_def new_turn_def append_pred_def
      AList.update_conv'
      split: if_splits list.splits sum.splits option.splits)

lemma ingest_total:
  assumes "map_of p (batch_ID e) \<noteq> None \<or> batch_domains e \<noteq> []"
  shows "\<exists>p'. ingest p e = Inr p'"
  using assms
  by (auto simp: ingest_def new_dialogue_def new_turn_def append_pred_def
      AList.update_conv'
      split: if_splits list.splits sum.splits option.splits)

section \<open>Properties of the slot logger\<close>

lemma record_slot_Some:
  assumes "map_of lg (batch_slot_text e) = Some (t, h, a)"
  shows "record_slot lg e =
     Inr (AList.update (batch_slot_text e)
            (t + 1, (if gen_value e = batch_value_text e then h + 1 else h), a) lg)"
  using assms by (simp add: record_slot_def AList.update_conv')

lemma record_slot_None:
  assumes "map_of lg (batch_slot_text e) = None"
  shows "record_slot lg e = Inl KeyError"
  using assms by (simp add: record_slot_def)

lemma record_slot_Inl: "record_slot lg e = Inl err \<Longrightarrow> err = KeyError"
  by (auto simp: record_slot_def split: if_splits option.splits sum.splits prod.splits)

lemma record_slot_keys:
  assumes "record_slot lg e = Inr lg'"
  shows "map fst lg' = map fst lg"
proof (cases "map_of lg (batch_slot_text e)")
  case None
  with assms show ?thesis by (simp add: record_slot_None)
next
  case (Some l)
  obtain t h a where l: "l = (t, h, a)" by (cases l)
  from Some have "batch_slot_text e \<in> set (map fst lg)"
    using map_of_eq_None_iff[of lg "batch_slot_text e"] by simp
  moreover from assms Some l have "lg' = AList.update (batch_slot_text e)
      (t + 1, (if gen_value e = batch_value_text e then h + 1 else h), a) lg"
    by (simp add: record_slot_Some)
  ultimately show ?thesis
    by (simp only: AList.update_keys if_True)
qed

lemma map_of_fold_init:
  "map_of (fold (\<lambda>s lg. AList.update s v lg) S acc) k =
     (if k \<in> set S then Some v else map_of acc k)"
  by (induction S arbitrary: acc) (auto simp: AList.update_conv')

lemma distinct_fold_init:
  "distinct (map fst acc) \<Longrightarrow> distinct (map fst (fold (\<lambda>s lg. AList.update s v lg) S acc))"
  by (induction S arbitrary: acc) (auto simp: AList.distinct_update)

lemma map_of_init_slot_logger:
  "map_of (init_slot_logger S) k = (if k \<in> set S then Some (0, 0, 0) else None)"
  by (simp add: init_slot_logger_def map_of_fold_init)

lemma distinct_init_slot_logger: "distinct (map fst (init_slot_logger S))"
  by (simp add: init_slot_logger_def distinct_fold_init)

lemma keys_init_slot_logger: "set (map fst (init_slot_logger S)) = set S"
proof -
  have "k \<in> set (map fst (init_slot_logger S)) \<longleftrightarrow> k \<in> set S" for k
    using map_of_init_slot_logger[of S k]
    by (metis map_of_eq_None_iff option.distinct(1) set_map)
  then show ?thesis by blast
qed

lemmas true_divide_simps = true_divide_def Let_def compute_bitlen round_half_even_def

lemma true_divide_zero: "true_divide h 0 = Inl ZeroDivisionError"
  by (simp add: true_divide_def)

lemma true_divide_Inr_nonzero: "true_divide h t = Inr r \<Longrightarrow> t \<noteq> 0"
  by (auto simp: true_divide_def)

lemma round_half_even_le: "round_half_even n d \<le> n div d + 1"
  by (simp add: round_half_even_def Let_def)

lemma bitlen_mono: "a \<le> b \<Longrightarrow> bitlen a \<le> bitlen b"
  by (simp add: bitlen_def floorlog_mono)

lemma true_divide_unit:
  assumes "0 \<le> h" and "h \<le> t" and "t \<noteq> 0"
  shows "\<exists>r. true_divide h t = Inr r"
proof (cases "h = 0")
  case True
  with assms show ?thesis by (simp add: true_divide_def)
next
  case False
  with assms have h: "0 < h" and t: "0 < t" by simp_all
  define e0 where "e0 = bitlen \<bar>h\<bar> - bitlen \<bar>t\<bar>"
  define e where "e = (if \<bar>t\<bar> * 2 ^ nat e0 \<le> \<bar>h\<bar> * 2 ^ nat (- e0) then e0 else e0 - 1)"
  define k where "k = max e (- 1022) - 52"
  define m where "m = round_half_even (\<bar>h\<bar> * 2 ^ nat (- k)) (\<bar>t\<bar> * 2 ^ nat k)"
  from h t assms(2) have "e0 \<le> 0" by (simp add: e0_def bitlen_mono)
  then have "e \<le> 0" by (simp add: e_def)
  then have k: "k < 0" by (simp add: k_def)
  then have nk: "nat k = 0" by simp
  have "m \<le> (h * 2 ^ nat (- k)) div t + 1"
    using round_half_even_le[of "h * 2 ^ nat (- k)" t] h t by (simp add: m_def nk)
  also have "(h * 2 ^ nat (- k)) div t \<le> (t * 2 ^ nat (- k)) div t"
    using assms(2) t by (intro zdiv_mono1) simp_all
  also have "(t * 2 ^ nat (- k)) div t = 2 ^ nat (- k)" using t by simp
  finally have "m \<le> 2 ^ nat (- k) + 1" by simp
  also have "\<dots> < 2 ^ 1024 * 2 ^ nat (- k)"
  proof -
    have "(1::int) \<le> 2 ^ nat (- k)" by simp
    then have "2 ^ nat (- k) + 1 \<le> 2 * (2::int) ^ nat (- k)" by simp
    also have "\<dots> < 2 ^ 1024 * 2 ^ nat (- k)" by simp
    finally show ?thesis .
  qed
  finally have "\<not> 2 ^ 1024 * 2 ^ nat (- k) \<le> m * 2 ^ nat k" by (simp add: nk)
  then show ?thesis
    using False t
    unfolding true_divide_def Let_def e0_def[symmetric] e_def[symmetric] k_def[symmetric]
      m_def[symmetric]
    by simp
qed

lemma finalize_nonzero:
  "finalize lg = Inr lg' \<Longrightarrow> (s, (t, h, a)) \<in> set lg \<Longrightarrow> t \<noteq> 0"
  by (induction lg arbitrary: lg' rule: finalize.induct)
     (auto split: sum.splits dest: true_divide_Inr_nonzero)

lemma finalize_keys: "finalize lg = Inr lg' \<Longrightarrow> map fst lg' = map fst lg"
  by (induction lg arbitrary: lg' rule: finalize.induct) (auto split: sum.splits)

lemma map_of_finalize:
  "finalize lg = Inr lg' \<Longrightarrow> map_of lg s = Some (t, h, a) \<Longrightarrow>
     \<exists>r. true_divide h t = Inr r \<and> map_of lg' s = Some (t, h, r)"
  by (induction lg arbitrary: lg' rule: finalize.induct) (auto split: sum.splits if_splits)

lemma finalize_zero:
  assumes "\<forall>(s, (t, h, a)) \<in> set lg. 0 \<le> h \<and> h \<le> t" and "(s0, (0, h0, a0)) \<in> set lg"
  shows "finalize lg = Inl ZeroDivisionError"
  using assms
proof (induction lg rule: finalize.induct)
  case 1
  then show ?case by simp
next
  case (2 s t h a lg)
  show ?case
  proof (cases "t = 0")
    case True
    then show ?thesis by (simp add: true_divide_zero)
  next
    case False
    with "2.prems"(1) obtain r where r: "true_divide h t = Inr r"
      using true_divide_unit[of h t] by auto
    from False "2.prems"(2) have "(s0, (0, h0, a0)) \<in> set lg" by auto
    with "2.IH"[OF r] "2.prems"(1) have "finalize lg = Inl ZeroDivisionError" by simp
    with r show ?thesis by simp
  qed
qed

lemma finalize_total:
  assumes "\<forall>(s, (t, h, a)) \<in> set lg. 0 \<le> h \<and> h \<le> t \<and> t \<noteq> 0"
  shows "\<exists>lg'. finalize lg = Inr lg'"
  using assms
proof (induction lg rule: finalize.induct)
  case 1
  then show ?case by simp
next
  case (2 s t h a lg)
  then obtain r where r: "true_divide h t = Inr r"
    using true_divide_unit[of h t] by auto
  from "2.IH"[OF r] "2.prems" obtain lg' where "finalize lg = Inr lg'" by auto
  with r show ?case by simp
qed

lemma process_loader_concat: "process_loader st L = process_batch st (concat L)"
proof (induction L arbitrary: st)
  case Nil show ?case by simp
next
  case (Cons b L)
  have app: "process_batch st (xs @ ys) =
      (case process_batch st xs of Inl err \<Rightarrow> Inl err | Inr st' \<Rightarrow> process_batch st' ys)" for st xs ys
    by (induction xs arbitrary: st) (auto split: sum.splits)
  show ?case by (simp add: app Cons.IH split: sum.splits)
qed

section \<open>Properties of the loops\<close>

lemma record_slot_map_of:
  assumes "record_slot lg e = Inr lg'"
  shows "map_of lg' s =
     map_option (\<lambda>(t, h, a).
        (t + (if batch_slot_text e = s then 1 else 0),
         h + (if batch_slot_text e = s \<and> gen_value e = batch_value_text e then 1 else 0), a))
       (map_of lg s)"
proof (cases "map_of lg (batch_slot_text e)")
  case None
  with assms show ?thesis by (simp add: record_slot_None)
next
  case (Some l)
  obtain t h a where l: "l = (t, h, a)" by (cases l)
  from assms Some l have "lg' = AList.update (batch_slot_text e)
      (t + 1, (if gen_value e = batch_value_text e then h + 1 else h), a) lg"
    by (simp add: record_slot_Some)
  with Some l show ?thesis
    by (cases "map_of lg s") (auto simp: AList.update_conv')
qed

lemma process_example_logger:
  "process_example st e = Inr st' \<Longrightarrow> record_slot (slot_logger st) e = Inr (slot_logger st')"
  by (auto simp: process_example_def split: sum.splits)

lemma process_example_predictions:
  "process_example st e = Inr st' \<Longrightarrow> ingest (predictions st) e = Inr (predictions st')"
  by (auto simp: process_example_def split: sum.splits)

lemma process_batch_keys:
  "process_batch st es = Inr st' \<Longrightarrow> map fst (slot_logger st') = map fst (slot_logger st)"
proof (induction es arbitrary: st)
  case Nil then show ?case by simp
next
  case (Cons e es)
  then obtain st1 where 1: "process_example st e = Inr st1" and 2: "process_batch st1 es = Inr st'"
    by (auto split: sum.splits)
  from Cons.IH[OF 2] record_slot_keys[OF process_example_logger[OF 1]] show ?case by simp
qed

lemma process_batch_counts:
  "process_batch st es = Inr st' \<Longrightarrow>
     map_of (slot_logger st') s =
       map_option (\<lambda>(t, h, a). (t + total_count s es, h + hit_count s es, a))
         (map_of (slot_logger st) s)"
proof (induction es arbitrary: st)
  case Nil
  then show ?case by (cases "map_of (slot_logger st) s") (auto simp: total_count_def hit_count_def)
next
  case (Cons e es)
  then obtain st1 where 1: "process_example st e = Inr st1" and 2: "process_batch st1 es = Inr st'"
    by (auto split: sum.splits)
  note r = record_slot_map_of[OF process_example_logger[OF 1], of s]
  show ?case
    unfolding Cons.IH[OF 2] r
    by (cases "map_of (slot_logger st) s") (auto simp: total_count_def hit_count_def)
qed

lemma process_batch_known_slots:
  "process_batch st es = Inr st' \<Longrightarrow> e \<in> set es \<Longrightarrow>
     map_of (slot_logger st) (batch_slot_text e) \<noteq> None"
proof (induction es arbitrary: st)
  case Nil then show ?case by simp
next
  case (Cons x es)
  then obtain st1 where 1: "process_example st x = Inr st1" and 2: "process_batch st1 es = Inr st'"
    by (auto split: sum.splits)
  have keys: "map fst (slot_logger st1) = map fst (slot_logger st)"
    using record_slot_keys[OF process_example_logger[OF 1]] .
  have same: "map_of (slot_logger st1) k = None \<longleftrightarrow> map_of (slot_logger st) k = None" for k
    using keys by (metis map_of_eq_None_iff set_map)
  show ?case
  proof (cases "e = x")
    case True
    show ?thesis
    proof
      assume "map_of (slot_logger st) (batch_slot_text e) = None"
      with True have "record_slot (slot_logger st) x = Inl KeyError"
        by (simp add: record_slot_None)
      with process_example_logger[OF 1] show False by simp
    qed
  next
    case False
    with Cons.prems have "e \<in> set es" by simp
    from Cons.IH[OF 2 this] same show ?thesis by simp
  qed
qed

lemma ingest_Inl_IndexError:
  "ingest p e = Inl err \<Longrightarrow>
     err = IndexError \<and> batch_domains e = [] \<and> map_of p (batch_ID e) = None"
  by (auto simp: ingest_def new_dialogue_def new_turn_def append_pred_def
      AList.update_conv'
      split: if_splits list.splits sum.splits option.splits)

lemma ingest_turn_preserved:
  assumes "ingest p e = Inr p'" and "lookup_turn p d t = Some tr"
  shows "\<exists>tr'. lookup_turn p' d t = Some tr' \<and> turn_belief tr' = turn_belief tr \<and>
           (\<exists>ys. pred_belief tr' = pred_belief tr @ ys)"
proof (cases "d = batch_ID e \<and> t = batch_turn_id e")
  case True
  with ingest_lookup_same[OF assms(1)] assms(2) show ?thesis
    by (simp add: pred_belief_of_def)
next
  case False
  then have "d \<noteq> batch_ID e \<or> t \<noteq> batch_turn_id e" by blast
  from ingest_lookup_other[OF assms(1) this] assms(2) show ?thesis by simp
qed

lemma process_batch_turn_preserved:
  "process_batch st es = Inr st' \<Longrightarrow> lookup_turn (predictions st) d t = Some tr \<Longrightarrow>
     \<exists>tr'. lookup_turn (predictions st') d t = Some tr' \<and> turn_belief tr' = turn_belief tr \<and>
           (\<exists>ys. pred_belief tr' = pred_belief tr @ ys)"
proof (induction es arbitrary: st tr)
  case Nil then show ?case by simp
next
  case (Cons e es)
  then obtain st1 where 1: "process_example st e = Inr st1" and 2: "process_batch st1 es = Inr st'"
    by (auto split: sum.splits)
  from ingest_turn_preserved[OF process_example_predictions[OF 1] Cons.prems(2)]
  obtain tr1 ys where a: "lookup_turn (predictions st1) d t = Some tr1"
    and b: "turn_belief tr1 = turn_belief tr" and c: "pred_belief tr1 = pred_belief tr @ ys"
    by blast
  from Cons.IH[OF 2 a] b c show ?case by auto
qed

lemma process_batch_domain_preserved:
  "process_batch st es = Inr st' \<Longrightarrow> map_of (predictions st) d = Some dlg \<Longrightarrow>
     map_option domain (map_of (predictions st') d) = Some (domain dlg)"
proof (induction es arbitrary: st dlg)
  case Nil then show ?case by simp
next
  case (Cons e es)
  then obtain st1 where 1: "process_example st e = Inr st1" and 2: "process_batch st1 es = Inr st'"
    by (auto split: sum.splits)
  from ingest_domain[OF process_example_predictions[OF 1], of d] Cons.prems(2)
  obtain dlg1 where a: "map_of (predictions st1) d = Some dlg1" and b: "domain dlg1 = domain dlg"
    by auto
  from Cons.IH[OF 2 a] b show ?case by simp
qed

lemma process_batch_append:
  "process_batch st (xs @ ys) =
     (case process_batch st xs of Inl err \<Rightarrow> Inl err | Inr st' \<Rightarrow> process_batch st' ys)"
  by (induction xs arbitrary: st) (auto split: sum.splits)

lemma ingest_none_sighted:
  assumes "gen_value e = ''none''" and "lookup_turn p (batch_ID e) (batch_turn_id e) = Some tr"
  shows "ingest p e = Inr p"
  using assms
  by (auto simp: ingest_defs lookup_turn_def split: option.splits)

lemma reachable_logger_keys:
  assumes "process_loader (init_state ALL_SLOTS) L = Inr st"
  shows "map_of (slot_logger st) k = None \<longleftrightarrow> k \<notin> set ALL_SLOTS"
proof -
  from assms have "process_batch (init_state ALL_SLOTS) (concat L) = Inr st"
    by (simp add: process_loader_concat)
  from process_batch_keys[OF this]
  have "set (map fst (slot_logger st)) = set ALL_SLOTS"
    by (simp add: init_state_def keys_init_slot_logger del: set_map)
  then show ?thesis by (simp add: map_of_eq_None_iff)
qed

lemma evaluate_model_Inr:
  assumes "result (evaluate_model em L S prefix) = Inr p"
  shows "\<exists>st lg ja f1 ta.
           process_loader (init_state S) L = Inr st \<and> predictions st = p \<and>
           finalize (slot_logger st) = Inr lg \<and> em p S = Inr (ja, f1, ta) \<and>
           files (evaluate_model em L S prefix) =
             [(prefix @ ''_slot_acc.json'', Slot_acc lg),
              (prefix @ ''_prediction.json'', Prediction p),
              (prefix @ ''_result.json'',
               Metrics [(''Joint Acc'', ja), (''Turn Acc'', ta), (''Joint F1'', f1)])]"
  using assms
  by (auto simp: evaluate_model_def Let_def split: sum.splits prod.splits)

lemma hit_count_le_total_count: "0 \<le> hit_count s es \<and> hit_count s es \<le> total_count s es"
proof -
  have "length (filter (\<lambda>e. batch_slot_text e = s \<and> gen_value e = batch_value_text e) es)
      \<le> length (filter (\<lambda>e. batch_slot_text e = s) es)"
    by (induction es) auto
  then show ?thesis by (simp add: hit_count_def total_count_def)
qed

lemma reachable_logger_entry:
  assumes "process_loader (init_state ALL_SLOTS) L = Inr st"
      and "(s, (t, h, a)) \<in> set (slot_logger st)"
  shows "s \<in> set ALL_SLOTS \<and> t = total_count s (concat L) \<and> h = hit_count s (concat L) \<and> a = 0"
proof -
  from assms(1) have b: "process_batch (init_state ALL_SLOTS) (concat L) = Inr st"
    by (simp add: process_loader_concat)
  from process_batch_keys[OF b]
  have keys: "map fst (slot_logger st) = map fst (init_slot_logger ALL_SLOTS)"
    by (simp add: init_state_def)
  then have "distinct (map fst (slot_logger st))" by (simp add: distinct_init_slot_logger)
  with assms(2) have m: "map_of (slot_logger st) s = Some (t, h, a)" by simp
  with reachable_logger_keys[OF assms(1), of s] have s: "s \<in> set ALL_SLOTS" by auto
  from process_batch_counts[OF b, of s] s m show ?thesis
    by (simp add: init_state_def map_of_init_slot_logger)
qed

lemma reachable_logger_ok:
  assumes "process_loader (init_state ALL_SLOTS) L = Inr st"
  shows "\<forall>(s, (t, h, a)) \<in> set (slot_logger st). 0 \<le> h \<and> h \<le> t"
  using reachable_logger_entry[OF assms] hit_count_le_total_count by fastforce

section \<open>The claims\<close>

text \<open>
  C1. Ingesting a row appends \<open>slot_text @ ''-'' @ value\<close> to the predicted belief of the
  row's turn exactly when the generated value is not the string \<open>''none''\<close>; when it is,
  the predicted belief of the turn is what it was (empty for a turn sighted for the first time).
\<close>

theorem ingest_appends_unless_none:
  assumes "ingest p e = Inr p'"
  shows "pred_belief_of p' (batch_ID e) (batch_turn_id e) =
           pred_belief_of p (batch_ID e) (batch_turn_id e) @
             (if gen_value e = ''none'' then [] else [batch_slot_text e @ ''-'' @ gen_value e])"
  using assms by (rule pred_belief_of_ingest)

theorem ingest_appends_unless_none_witness:
  "ingest [] row_east =
      Inr [(''D1'', \<lparr>domain = ''hotel'',
              turns = [(0, \<lparr>turn_belief = [''hotel-area-east''],
                             pred_belief = [''hotel-area-east'']\<rparr>)]\<rparr>)] \<and>
   pred_belief_of [(''D1'', \<lparr>domain = ''hotel'',
              turns = [(0, \<lparr>turn_belief = [''hotel-area-east''],
                             pred_belief = [''hotel-area-east'']\<rparr>)]\<rparr>)] ''D1'' 0 =
      pred_belief_of [] ''D1'' 0 @ [''hotel-area-east'']"
proof -
  have h: "ingest [] row_east =
      Inr [(''D1'', \<lparr>domain = ''hotel'',
              turns = [(0, \<lparr>turn_belief = [''hotel-area-east''],
                             pred_belief = [''hotel-area-east'']\<rparr>)]\<rparr>)]"
    by (simp add: ingest_defs row_east_def)
  from ingest_appends_unless_none[OF h] h show ?thesis
    by (simp add: row_east_def)
qed

text \<open>
  C2. When the loop is over and some slot of the logger has total 0, the division of the
  finalising loop raises \<open>ZeroDivisionError\<close>: the pass ends with that error and has written
  no file, whatever \<open>evaluate_metrics\<close> would have returned.
\<close>

theorem zero_total_halts_before_files:
  assumes "process_loader (init_state ALL_SLOTS) test_loader = Inr st"
      and "map_of (slot_logger st) s = Some (0, h, a)"
  shows "evaluate_model evaluate_metrics test_loader ALL_SLOTS prefix =
           \<lparr>files = [], result = Inl ZeroDivisionError\<rparr>"
proof -
  from assms(2) have "(s, (0, h, a)) \<in> set (slot_logger st)" by (rule map_of_SomeD)
  with reachable_logger_ok[OF assms(1)]
  have "finalize (slot_logger st) = Inl ZeroDivisionError" by (rule finalize_zero)
  with assms(1) show ?thesis by (simp add: evaluate_model_def)
qed

theorem zero_total_halts_before_files_witness:
  "process_loader (init_state [''hotel-area'', ''hotel-stars'']) [[row_east]] =
      Inr \<lparr>predictions = [(''D1'', \<lparr>domain = ''hotel'',
              turns = [(0, \<lparr>turn_belief = [''hotel-area-east''],
                             pred_belief = [''hotel-area-east'']\<rparr>)]\<rparr>)],
           slot_logger = [(''hotel-area'', (1, 1, 0)), (''hotel-stars'', (0, 0, 0))]\<rparr> \<and>
   evaluate_model (\<lambda>p slots. Inr (1, 1, 1)) [[row_east]] [''hotel-area'', ''hotel-stars''] ''zeroshot'' =
      \<lparr>files = [], result = Inl ZeroDivisionError\<rparr>"
proof -
  have run: "process_loader (init_state [''hotel-area'', ''hotel-stars'']) [[row_east]] =
      Inr \<lparr>predictions = [(''D1'', \<lparr>domain = ''hotel'',
              turns = [(0, \<lparr>turn_belief = [''hotel-area-east''],
                             pred_belief = [''hotel-area-east'']\<rparr>)]\<rparr>)],
           slot_logger = [(''hotel-area'', (1, 1, 0)), (''hotel-stars'', (0, 0, 0))]\<rparr>"
    by (simp add: run_defs row_east_def)
  have zero: "map_of (slot_logger \<lparr>predictions = [(''D1'', \<lparr>domain = ''hotel'',
              turns = [(0, \<lparr>turn_belief = [''hotel-area-east''],
                             pred_belief = [''hotel-area-east'']\<rparr>)]\<rparr>)],
           slot_logger = [(''hotel-area'', (1, 1, 0)), (''hotel-stars'', (0, 0, 0))]\<rparr>)
        ''hotel-stars'' = Some (0, 0, 0)"
    by simp
  from zero_total_halts_before_files[OF run zero] run show ?thesis by simp
qed

text \<open>
  C3. Processing a row whose slot is in the logger, once the accumulator has taken the
  row, returns, and the slot logger of the new state is the old one with exactly one
  change: the row's slot has its total increased by one, and its hit counter increased by
  one exactly when the generated text equals the ground-truth text. The ratio, the other
  slots and the order of the keys stay as they were. The text \<open>''none''\<close> plays no part: a
  generated \<open>''none''\<close> against a ground truth \<open>''none''\<close> is a hit.
\<close>

theorem process_example_counts:
  assumes "map_of (slot_logger st) (batch_slot_text e) = Some (t, h, a)"
      and "ingest (predictions st) e = Inr p'"
  shows "\<exists>st'. process_example st e = Inr st' \<and> predictions st' = p' \<and>
           record_slot (slot_logger st) e = Inr (slot_logger st') \<and>
           map fst (slot_logger st') = map fst (slot_logger st) \<and>
           map_of (slot_logger st') = (map_of (slot_logger st))(batch_slot_text e \<mapsto>
              (t + 1, (if gen_value e = batch_value_text e then h + 1 else h), a))"
proof -
  let ?lg' = "AList.update (batch_slot_text e)
      (t + 1, (if gen_value e = batch_value_text e then h + 1 else h), a) (slot_logger st)"
  have r: "record_slot (slot_logger st) e = Inr ?lg'" using assms(1) by (rule record_slot_Some)
  with assms(2) have p: "process_example st e = Inr \<lparr>predictions = p', slot_logger = ?lg'\<rparr>"
    by (simp add: process_example_def)
  have k: "map fst ?lg' = map fst (slot_logger st)" using r by (rule record_slot_keys)
  have m: "map_of ?lg' = (map_of (slot_logger st))(batch_slot_text e \<mapsto>
              (t + 1, (if gen_value e = batch_value_text e then h + 1 else h), a))"
    by (rule AList.update_conv')
  from p r k m show ?thesis by simp
qed

theorem process_example_counts_witness:
  "map_of (slot_logger \<lparr>predictions = [],
        slot_logger = [(''hotel-area'', (3, 2, 0)), (''hotel-stars'', (4, 1, 0))]\<rparr>)
      (batch_slot_text row_none) = Some (4, 1, 0) \<and>
   process_example \<lparr>predictions = [],
        slot_logger = [(''hotel-area'', (3, 2, 0)), (''hotel-stars'', (4, 1, 0))]\<rparr> row_none =
      Inr \<lparr>predictions = [(''D1'', \<lparr>domain = ''hotel'',
              turns = [(0, \<lparr>turn_belief = [''hotel-area-east''], pred_belief = []\<rparr>)]\<rparr>)],
           slot_logger = [(''hotel-area'', (3, 2, 0)), (''hotel-stars'', (5, 2, 0))]\<rparr> \<and>
   process_example \<lparr>predictions = [],
        slot_logger = [(''hotel-area'', (3, 2, 0)), (''hotel-stars'', (4, 1, 0))]\<rparr> row_west =
      Inr \<lparr>predictions = [(''D1'', \<lparr>domain = ''hotel'',
              turns = [(0, \<lparr>turn_belief = [''hotel-area-west''],
                             pred_belief = [''hotel-area-west'']\<rparr>)]\<rparr>)],
           slot_logger = [(''hotel-area'', (4, 2, 0)), (''hotel-stars'', (4, 1, 0))]\<rparr>"
proof -
  have a: "map_of (slot_logger \<lparr>predictions = [],
        slot_logger = [(''hotel-area'', (3, 2, 0)), (''hotel-stars'', (4, 1, 0))]\<rparr>)
      (batch_slot_text row_none) = Some (4, 1, 0)"
    by (simp add: row_none_def)
  have b: "ingest (predictions \<lparr>predictions = [],
        slot_logger = [(''hotel-area'', (3, 2, 0)), (''hotel-stars'', (4, 1, 0))]\<rparr>) row_none =
      Inr [(''D1'', \<lparr>domain = ''hotel'',
              turns = [(0, \<lparr>turn_belief = [''hotel-area-east''], pred_belief = []\<rparr>)]\<rparr>)]"
    by (simp add: ingest_defs row_none_def)
  from process_example_counts[OF a b] a show ?thesis
    by (simp add: process_example_def ingest_defs record_slot_def row_none_def row_west_def)
qed

text \<open>
  C4. The turn belief stored when a turn is sighted for the first time is the row's, and
  whatever rows the pass processes afterwards, that turn still holds the same turn belief:
  only its predicted belief grows, by appending, and the domain of its dialogue stays.
\<close>

theorem turn_belief_never_overwritten:
  assumes "lookup_turn (predictions st) (batch_ID e) (batch_turn_id e) = None"
      and "process_example st e = Inr st1"
      and "process_loader st1 later = Inr st2"
  shows "\<exists>tr1 tr2 ys.
           lookup_turn (predictions st1) (batch_ID e) (batch_turn_id e) = Some tr1 \<and>
           turn_belief tr1 = batch_turn_belief e \<and>
           lookup_turn (predictions st2) (batch_ID e) (batch_turn_id e) = Some tr2 \<and>
           turn_belief tr2 = batch_turn_belief e \<and>
           pred_belief tr2 = pred_belief tr1 @ ys \<and>
           map_option domain (map_of (predictions st2) (batch_ID e)) =
             map_option domain (map_of (predictions st1) (batch_ID e))"
proof -
  note i = process_example_predictions[OF assms(2)]
  from ingest_lookup_same[OF i] assms(1)
  obtain tr1 where 1: "lookup_turn (predictions st1) (batch_ID e) (batch_turn_id e) = Some tr1"
    and 2: "turn_belief tr1 = batch_turn_belief e"
    by simp
  from assms(3) have b: "process_batch st1 (concat later) = Inr st2"
    by (simp add: process_loader_concat)
  from process_batch_turn_preserved[OF b 1] obtain tr2 ys
    where 3: "lookup_turn (predictions st2) (batch_ID e) (batch_turn_id e) = Some tr2"
      and 4: "turn_belief tr2 = turn_belief tr1" and 5: "pred_belief tr2 = pred_belief tr1 @ ys"
    by blast
  from 1 obtain dlg where d: "map_of (predictions st1) (batch_ID e) = Some dlg"
    by (auto simp: lookup_turn_def split: option.splits)
  from process_batch_domain_preserved[OF b d] d
  have 6: "map_option domain (map_of (predictions st2) (batch_ID e)) =
             map_option domain (map_of (predictions st1) (batch_ID e))" by simp
  from 1 2 3 4 5 6 show ?thesis by auto
qed

theorem turn_belief_never_overwritten_witness:
  "lookup_turn (predictions (init_state [''hotel-area''])) (batch_ID row_east) (batch_turn_id row_east) = None \<and>
   process_example (init_state [''hotel-area'']) row_east =
      Inr \<lparr>predictions = [(''D1'', \<lparr>domain = ''hotel'',
              turns = [(0, \<lparr>turn_belief = [''hotel-area-east''],
                             pred_belief = [''hotel-area-east'']\<rparr>)]\<rparr>)],
           slot_logger = [(''hotel-area'', (1, 1, 0))]\<rparr> \<and>
   process_loader \<lparr>predictions = [(''D1'', \<lparr>domain = ''hotel'',
              turns = [(0, \<lparr>turn_belief = [''hotel-area-east''],
                             pred_belief = [''hotel-area-east'']\<rparr>)]\<rparr>)],
           slot_logger = [(''hotel-area'', (1, 1, 0))]\<rparr> [[row_west]] =
      Inr \<lparr>predictions = [(''D1'', \<lparr>domain = ''hotel'',
              turns = [(0, \<lparr>turn_belief = [''hotel-area-east''],
                             pred_belief = [''hotel-area-east'', ''hotel-area-west'']\<rparr>)]\<rparr>)],
           slot_logger = [(''hotel-area'', (2, 1, 0))]\<rparr> \<and>
   batch_turn_belief row_west = [''hotel-area-west'']"
proof -
  have a: "lookup_turn (predictions (init_state [''hotel-area''])) (batch_ID row_east)
      (batch_turn_id row_east) = None"
    by (simp add: init_state_def lookup_turn_def)
  have b: "process_example (init_state [''hotel-area'']) row_east =
      Inr \<lparr>predictions = [(''D1'', \<lparr>domain = ''hotel'',
              turns = [(0, \<lparr>turn_belief = [''hotel-area-east''],
                             pred_belief = [''hotel-area-east'']\<rparr>)]\<rparr>)],
           slot_logger = [(''hotel-area'', (1, 1, 0))]\<rparr>"
    by (simp add: run_defs row_east_def)
  have c: "process_loader \<lparr>predictions = [(''D1'', \<lparr>domain = ''hotel'',
              turns = [(0, \<lparr>turn_belief = [''hotel-area-east''],
                             pred_belief = [''hotel-area-east'']\<rparr>)]\<rparr>)],
           slot_logger = [(''hotel-area'', (1, 1, 0))]\<rparr> [[row_west]] =
      Inr \<lparr>predictions = [(''D1'', \<lparr>domain = ''hotel'',
              turns = [(0, \<lparr>turn_belief = [''hotel-area-east''],
                             pred_belief = [''hotel-area-east'', ''hotel-area-west'']\<rparr>)]\<rparr>)],
           slot_logger = [(''hotel-area'', (2, 1, 0))]\<rparr>"
    by (simp add: run_defs row_west_def)
  from turn_belief_never_overwritten[OF a b c] a b c show ?thesis
    by (simp add: row_west_def)
qed

text \<open>
  C5, as the code has it. A row whose turn is not yet in the accumulator goes through three
  steps. The dialogue, when it is new, is created with the first listed domain of the row
  and no turns; a dialogue already present is left as it is, its domain included. The turn
  is created with the row's whole turn belief and an empty predicted belief, to which the
  row's own entry is then appended unless the value is \<open>''none''\<close>. The domain is kept
  once for the dialogue, at its first sighting; a turn's record holds the two beliefs only.
\<close>

theorem first_sighting_stores:
  assumes "ingest p e = Inr p'"
      and "lookup_turn p (batch_ID e) (batch_turn_id e) = None"
  shows "(\<exists>p1 p2. new_dialogue p e = Inr p1 \<and> new_turn p1 e = Inr p2 \<and> append_pred p2 e = Inr p' \<and>
            map_of p1 (batch_ID e) =
              Some (case map_of p (batch_ID e) of
                      None \<Rightarrow> \<lparr>domain = hd (batch_domains e), turns = []\<rparr>
                    | Some dlg \<Rightarrow> dlg) \<and>
            lookup_turn p2 (batch_ID e) (batch_turn_id e) =
              Some \<lparr>turn_belief = batch_turn_belief e, pred_belief = []\<rparr>) \<and>
         lookup_turn p' (batch_ID e) (batch_turn_id e) =
           Some \<lparr>turn_belief = batch_turn_belief e,
                 pred_belief = (if gen_value e = ''none'' then []
                                else [batch_slot_text e @ ''-'' @ gen_value e])\<rparr> \<and>
         map_option domain (map_of p' (batch_ID e)) =
           (case map_of p (batch_ID e) of
              None \<Rightarrow> Some (hd (batch_domains e))
            | Some dlg \<Rightarrow> Some (domain dlg))"
proof (intro conjI)
  from assms(1) obtain p1 p2 where 1: "new_dialogue p e = Inr p1" and 2: "new_turn p1 e = Inr p2"
    and 3: "append_pred p2 e = Inr p'"
    by (auto simp: ingest_def split: sum.splits)
  from 1 have m1: "map_of p1 (batch_ID e) =
              Some (case map_of p (batch_ID e) of
                      None \<Rightarrow> \<lparr>domain = hd (batch_domains e), turns = []\<rparr>
                    | Some dlg \<Rightarrow> dlg)"
    by (auto simp: new_dialogue_def AList.update_conv' split: if_splits list.splits)
  from 1 assms(2) have n1: "lookup_turn p1 (batch_ID e) (batch_turn_id e) = None"
    by (auto simp: new_dialogue_def lookup_turn_def AList.update_conv'
        split: if_splits list.splits option.splits)
  from 2 n1 have m2: "lookup_turn p2 (batch_ID e) (batch_turn_id e) =
              Some \<lparr>turn_belief = batch_turn_belief e, pred_belief = []\<rparr>"
    by (auto simp: new_turn_def lookup_turn_def AList.update_conv'
        split: if_splits option.splits)
  from 1 2 3 m1 m2
  show "\<exists>p1 p2. new_dialogue p e = Inr p1 \<and> new_turn p1 e = Inr p2 \<and> append_pred p2 e = Inr p' \<and>
            map_of p1 (batch_ID e) =
              Some (case map_of p (batch_ID e) of
                      None \<Rightarrow> \<lparr>domain = hd (batch_domains e), turns = []\<rparr>
                    | Some dlg \<Rightarrow> dlg) \<and>
            lookup_turn p2 (batch_ID e) (batch_turn_id e) =
              Some \<lparr>turn_belief = batch_turn_belief e, pred_belief = []\<rparr>"
    by blast
next
  from ingest_lookup_same[OF assms(1)] assms(2)
  show "lookup_turn p' (batch_ID e) (batch_turn_id e) =
           Some \<lparr>turn_belief = batch_turn_belief e,
                 pred_belief = (if gen_value e = ''none'' then []
                                else [batch_slot_text e @ ''-'' @ gen_value e])\<rparr>"
    by (simp add: pred_belief_of_def)
next
  from ingest_domain[OF assms(1), of "batch_ID e"]
  show "map_option domain (map_of p' (batch_ID e)) =
           (case map_of p (batch_ID e) of
              None \<Rightarrow> Some (hd (batch_domains e))
            | Some dlg \<Rightarrow> Some (domain dlg))"
    by (simp split: option.splits)
qed

theorem first_sighting_stores_witness:
  "ingest [] row_none =
      Inr [(''D1'', \<lparr>domain = ''hotel'',
              turns = [(0, \<lparr>turn_belief = [''hotel-area-east''], pred_belief = []\<rparr>)]\<rparr>)] \<and>
   lookup_turn [] (batch_ID row_none) (batch_turn_id row_none) = None \<and>
   new_dialogue [] row_none = Inr [(''D1'', \<lparr>domain = ''hotel'', turns = []\<rparr>)] \<and>
   lookup_turn [(''D1'', \<lparr>domain = ''hotel'',
              turns = [(0, \<lparr>turn_belief = [''hotel-area-east''], pred_belief = []\<rparr>)]\<rparr>)]
      (batch_ID row_none) (batch_turn_id row_none) =
      Some \<lparr>turn_belief = [''hotel-area-east''], pred_belief = []\<rparr>"
proof -
  have a: "ingest [] row_none =
      Inr [(''D1'', \<lparr>domain = ''hotel'',
              turns = [(0, \<lparr>turn_belief = [''hotel-area-east''], pred_belief = []\<rparr>)]\<rparr>)]"
    by (simp add: ingest_defs row_none_def)
  have b: "lookup_turn [] (batch_ID row_none) (batch_turn_id row_none) = None"
    by (simp add: lookup_turn_def)
  from first_sighting_stores[OF a b] a b show ?thesis
    by (simp add: new_dialogue_def row_none_def)
qed

text \<open>
  C5 as the specification words it has the domain stored at the first sighting of a turn.
  Dialogue D1 is created by a hotel row; the first row of its turn 1 lists the domain
  train: the new turn holds its two beliefs, and the domain of D1 is still hotel.
\<close>

theorem turn_sighting_stores_domain_counterexample:
  "ingest [] row_east =
      Inr [(''D1'', \<lparr>domain = ''hotel'',
              turns = [(0, \<lparr>turn_belief = [''hotel-area-east''],
                             pred_belief = [''hotel-area-east'']\<rparr>)]\<rparr>)] \<and>
   lookup_turn [(''D1'', \<lparr>domain = ''hotel'',
              turns = [(0, \<lparr>turn_belief = [''hotel-area-east''],
                             pred_belief = [''hotel-area-east'']\<rparr>)]\<rparr>)]
      (batch_ID row_train) (batch_turn_id row_train) = None \<and>
   ingest [(''D1'', \<lparr>domain = ''hotel'',
              turns = [(0, \<lparr>turn_belief = [''hotel-area-east''],
                             pred_belief = [''hotel-area-east'']\<rparr>)]\<rparr>)] row_train =
      Inr [(''D1'', \<lparr>domain = ''hotel'',
              turns = [(0, \<lparr>turn_belief = [''hotel-area-east''],
                             pred_belief = [''hotel-area-east'']\<rparr>),
                       (1, \<lparr>turn_belief = [''train-day-monday''],
                             pred_belief = [''train-day-monday'']\<rparr>)]\<rparr>)] \<and>
   batch_domains row_train = [''train''] \<and>
   map_option domain (map_of [(''D1'', \<lparr>domain = ''hotel'',
              turns = [(0, \<lparr>turn_belief = [''hotel-area-east''],
                             pred_belief = [''hotel-area-east'']\<rparr>),
                       (1, \<lparr>turn_belief = [''train-day-monday''],
                             pred_belief = [''train-day-monday'']\<rparr>)]\<rparr>)] (batch_ID row_train))
     \<noteq> Some (hd (batch_domains row_train))"
  by (simp add: ingest_defs lookup_turn_def row_east_def row_train_def)

text \<open>
  C6, as the code has it. Ingesting a row whose generated value is \<open>''none''\<close> adds no
  entry to any predicted belief: the row's turn keeps its record when it was sighted before
  and is created with the row's turn belief and an empty predicted belief otherwise, and
  every other turn is as it was. Once the row has been ingested, ingesting it again any
  number of times returns the very same accumulator, and a row whose turn was already
  sighted leaves the accumulator as it was. Only a first sighting changes the accumulator,
  by the record it creates.
\<close>

theorem ingest_none_idempotent:
  assumes "gen_value e = ''none''" and "ingest p e = Inr p'"
  shows "ingest_all p' (replicate n e) = Inr p' \<and>
         (\<forall>d t. pred_belief_of p' d t = pred_belief_of p d t) \<and>
         (lookup_turn p (batch_ID e) (batch_turn_id e) \<noteq> None \<longrightarrow> p' = p) \<and>
         lookup_turn p' (batch_ID e) (batch_turn_id e) =
           Some (case lookup_turn p (batch_ID e) (batch_turn_id e) of
                   None \<Rightarrow> \<lparr>turn_belief = batch_turn_belief e, pred_belief = []\<rparr>
                 | Some tr \<Rightarrow> tr) \<and>
         (\<forall>d t. d \<noteq> batch_ID e \<or> t \<noteq> batch_turn_id e \<longrightarrow>
                  lookup_turn p' d t = lookup_turn p d t)"
proof (intro conjI)
  from ingest_lookup_same[OF assms(2)] obtain tr
    where "lookup_turn p' (batch_ID e) (batch_turn_id e) = Some tr" by blast
  with assms(1) have again: "ingest p' e = Inr p'" by (rule ingest_none_sighted)
  show "ingest_all p' (replicate n e) = Inr p'"
    by (induction n) (simp_all add: again)
next
  show "\<forall>d t. pred_belief_of p' d t = pred_belief_of p d t"
  proof (intro allI)
    fix d t
    show "pred_belief_of p' d t = pred_belief_of p d t"
    proof (cases "d = batch_ID e \<and> t = batch_turn_id e")
      case True
      with ingest_lookup_same[OF assms(2)] assms(1) show ?thesis
        by (simp add: pred_belief_of_def)
    next
      case False
      then have "d \<noteq> batch_ID e \<or> t \<noteq> batch_turn_id e" by blast
      from ingest_lookup_other[OF assms(2) this] show ?thesis
        by (simp add: pred_belief_of_def)
    qed
  qed
next
  show "lookup_turn p (batch_ID e) (batch_turn_id e) \<noteq> None \<longrightarrow> p' = p"
  proof
    assume "lookup_turn p (batch_ID e) (batch_turn_id e) \<noteq> None"
    then obtain tr where "lookup_turn p (batch_ID e) (batch_turn_id e) = Some tr" by blast
    with assms(1) have "ingest p e = Inr p" by (rule ingest_none_sighted)
    with assms(2) show "p' = p" by simp
  qed
next
  from ingest_lookup_same[OF assms(2)] assms(1)
  show "lookup_turn p' (batch_ID e) (batch_turn_id e) =
           Some (case lookup_turn p (batch_ID e) (batch_turn_id e) of
                   None \<Rightarrow> \<lparr>turn_belief = batch_turn_belief e, pred_belief = []\<rparr>
                 | Some tr \<Rightarrow> tr)"
    by (simp add: pred_belief_of_def split: option.splits)
next
  show "\<forall>d t. d \<noteq> batch_ID e \<or> t \<noteq> batch_turn_id e \<longrightarrow>
                  lookup_turn p' d t = lookup_turn p d t"
    using ingest_lookup_other[OF assms(2)] by blast
qed

theorem ingest_none_idempotent_witness:
  "gen_value row_none = ''none'' \<and>
   lookup_turn [(''D1'', \<lparr>domain = ''hotel'',
              turns = [(0, \<lparr>turn_belief = [''hotel-area-east''],
                             pred_belief = [''hotel-area-east'']\<rparr>)]\<rparr>)]
      (batch_ID row_none) (batch_turn_id row_none) \<noteq> None \<and>
   ingest [(''D1'', \<lparr>domain = ''hotel'',
              turns = [(0, \<lparr>turn_belief = [''hotel-area-east''],
                             pred_belief = [''hotel-area-east'']\<rparr>)]\<rparr>)] row_none =
      Inr [(''D1'', \<lparr>domain = ''hotel'',
              turns = [(0, \<lparr>turn_belief = [''hotel-area-east''],
                             pred_belief = [''hotel-area-east'']\<rparr>)]\<rparr>)] \<and>
   ingest_all [(''D1'', \<lparr>domain = ''hotel'',
              turns = [(0, \<lparr>turn_belief = [''hotel-area-east''],
                             pred_belief = [''hotel-area-east'']\<rparr>)]\<rparr>)]
        (replicate 3 row_none) =
      Inr [(''D1'', \<lparr>domain = ''hotel'',
              turns = [(0, \<lparr>turn_belief = [''hotel-area-east''],
                             pred_belief = [''hotel-area-east'']\<rparr>)]\<rparr>)]"
proof -
  have a: "gen_value row_none = ''none''" by (simp add: row_none_def)
  have b: "ingest [(''D1'', \<lparr>domain = ''hotel'',
              turns = [(0, \<lparr>turn_belief = [''hotel-area-east''],
                             pred_belief = [''hotel-area-east'']\<rparr>)]\<rparr>)] row_none =
      Inr [(''D1'', \<lparr>domain = ''hotel'',
              turns = [(0, \<lparr>turn_belief = [''hotel-area-east''],
                             pred_belief = [''hotel-area-east'']\<rparr>)]\<rparr>)]"
    by (simp add: ingest_defs row_none_def)
  have c: "lookup_turn [(''D1'', \<lparr>domain = ''hotel'',
              turns = [(0, \<lparr>turn_belief = [''hotel-area-east''],
                             pred_belief = [''hotel-area-east'']\<rparr>)]\<rparr>)]
      (batch_ID row_none) (batch_turn_id row_none) \<noteq> None"
    by (simp add: lookup_turn_def row_none_def)
  from ingest_none_idempotent[OF a b, of 3] a b c show ?thesis by simp
qed

text \<open>
  C6 as the specification words it has the accumulator after such an ingestion equal to the
  accumulator before. On the empty accumulator, ingesting a row with the value \<open>''none''\<close>
  creates dialogue D1 and its turn 0.
\<close>

theorem none_ingestion_keeps_state_counterexample:
  "gen_value row_none = ''none'' \<and>
   ingest [] row_none =
      Inr [(''D1'', \<lparr>domain = ''hotel'',
              turns = [(0, \<lparr>turn_belief = [''hotel-area-east''], pred_belief = []\<rparr>)]\<rparr>)] \<and>
   ingest [] row_none \<noteq> Inr []"
  by (simp add: ingest_defs row_none_def)

text \<open>
  C7. Whenever the slot accuracy document is among the files of a pass, the files are, in
  this order: that document, the predictions, and, unless \<open>evaluate_metrics\<close> raised, the
  metrics under exactly the keys Joint Acc, Turn Acc, Joint F1 in that order. The slot
  accuracy document has one entry for every slot of \<open>ALL_SLOTS\<close> and no other, and the entry
  of a slot is (number of its rows, number of its hits, the double of hits / rows).
\<close>

theorem persisted_documents:
  assumes "(name, Slot_acc lg) \<in> set (files (evaluate_model evaluate_metrics test_loader ALL_SLOTS prefix))"
  shows "\<exists>st. process_loader (init_state ALL_SLOTS) test_loader = Inr st \<and>
           files (evaluate_model evaluate_metrics test_loader ALL_SLOTS prefix) =
             [(prefix @ ''_slot_acc.json'', Slot_acc lg),
              (prefix @ ''_prediction.json'', Prediction (predictions st))] @
             (case evaluate_metrics (predictions st) ALL_SLOTS of
                Inl err \<Rightarrow> []
              | Inr (joint_acc, f1, turn_acc) \<Rightarrow>
                  [(prefix @ ''_result.json'',
                    Metrics [(''Joint Acc'', joint_acc), (''Turn Acc'', turn_acc),
                             (''Joint F1'', f1)])]) \<and>
           distinct (map fst lg) \<and> set (map fst lg) = set ALL_SLOTS \<and>
           (\<forall>s \<in> set ALL_SLOTS.
              total_count s (concat test_loader) \<noteq> 0 \<and>
              (\<exists>ratio.
                 true_divide (hit_count s (concat test_loader))
                   (total_count s (concat test_loader)) = Inr ratio \<and>
                 map_of lg s =
                   Some (total_count s (concat test_loader), hit_count s (concat test_loader),
                         ratio)))"
proof -
  from assms obtain st where
    run: "process_loader (init_state ALL_SLOTS) test_loader = Inr st" and
    fin: "finalize (slot_logger st) = Inr lg" and
    fs: "files (evaluate_model evaluate_metrics test_loader ALL_SLOTS prefix) =
             [(prefix @ ''_slot_acc.json'', Slot_acc lg),
              (prefix @ ''_prediction.json'', Prediction (predictions st))] @
             (case evaluate_metrics (predictions st) ALL_SLOTS of
                Inl err \<Rightarrow> []
              | Inr (joint_acc, f1, turn_acc) \<Rightarrow>
                  [(prefix @ ''_result.json'',
                    Metrics [(''Joint Acc'', joint_acc), (''Turn Acc'', turn_acc),
                             (''Joint F1'', f1)])])"
    by (auto simp: evaluate_model_def Let_def split: sum.splits prod.splits)
  from run have b: "process_batch (init_state ALL_SLOTS) (concat test_loader) = Inr st"
    by (simp add: process_loader_concat)
  have keys: "map fst lg = map fst (init_slot_logger ALL_SLOTS)"
    using finalize_keys[OF fin] process_batch_keys[OF b] by (simp add: init_state_def)
  have d: "distinct (map fst lg)" unfolding keys by (rule distinct_init_slot_logger)
  have k: "set (map fst lg) = set ALL_SLOTS" unfolding keys by (rule keys_init_slot_logger)
  have each: "total_count s (concat test_loader) \<noteq> 0 \<and>
              (\<exists>ratio.
                 true_divide (hit_count s (concat test_loader))
                   (total_count s (concat test_loader)) = Inr ratio \<and>
                 map_of lg s =
                   Some (total_count s (concat test_loader), hit_count s (concat test_loader),
                         ratio))"
    if s: "s \<in> set ALL_SLOTS" for s
  proof -
    from process_batch_counts[OF b, of s] s
    have c: "map_of (slot_logger st) s =
        Some (total_count s (concat test_loader), hit_count s (concat test_loader), 0)"
      by (simp add: init_state_def map_of_init_slot_logger)
    from finalize_nonzero[OF fin map_of_SomeD[OF c]]
    have nz: "total_count s (concat test_loader) \<noteq> 0" .
    from map_of_finalize[OF fin c] nz show ?thesis by simp
  qed
  from run fs d k each show ?thesis by blast
qed

theorem persisted_documents_witness:
  "evaluate_model (\<lambda>p slots. Inl KeyError) [[row_east, row_west], [row_west]] [''hotel-area''] ''zeroshot'' =
     \<lparr>files =
        [(''zeroshot_slot_acc.json'',
          Slot_acc [(''hotel-area'', (3, 1, 6004799503160661 / 18014398509481984))]),
         (''zeroshot_prediction.json'',
          Prediction [(''D1'', \<lparr>domain = ''hotel'',
              turns = [(0, \<lparr>turn_belief = [''hotel-area-east''],
                 pred_belief = [''hotel-area-east'', ''hotel-area-west'', ''hotel-area-west'']\<rparr>)]\<rparr>)])],
      result = Inl KeyError\<rparr> \<and>
   evaluate_model (\<lambda>p slots. Inr (0, 1 / 2, 0)) [[row_east, row_west], [row_west]] [''hotel-area''] ''zeroshot'' =
     \<lparr>files =
        [(''zeroshot_slot_acc.json'',
          Slot_acc [(''hotel-area'', (3, 1, 6004799503160661 / 18014398509481984))]),
         (''zeroshot_prediction.json'',
          Prediction [(''D1'', \<lparr>domain = ''hotel'',
              turns = [(0, \<lparr>turn_belief = [''hotel-area-east''],
                 pred_belief = [''hotel-area-east'', ''hotel-area-west'', ''hotel-area-west'']\<rparr>)]\<rparr>)]),
         (''zeroshot_result.json'',
          Metrics [(''Joint Acc'', 0), (''Turn Acc'', 0), (''Joint F1'', 1 / 2)])],
      result = Inr [(''D1'', \<lparr>domain = ''hotel'',
              turns = [(0, \<lparr>turn_belief = [''hotel-area-east''],
                 pred_belief = [''hotel-area-east'', ''hotel-area-west'', ''hotel-area-west'']\<rparr>)]\<rparr>)]\<rparr> \<and>
   total_count ''hotel-area'' (concat [[row_east, row_west], [row_west]]) = 3 \<and>
   hit_count ''hotel-area'' (concat [[row_east, row_west], [row_west]]) = 1 \<and>
   true_divide 1 3 = Inr (6004799503160661 / 18014398509481984)"
proof -
  have ev: "evaluate_model (\<lambda>p slots. Inl KeyError) [[row_east, row_west], [row_west]] [''hotel-area''] ''zeroshot'' =
     \<lparr>files =
        [(''zeroshot_slot_acc.json'',
          Slot_acc [(''hotel-area'', (3, 1, 6004799503160661 / 18014398509481984))]),
         (''zeroshot_prediction.json'',
          Prediction [(''D1'', \<lparr>domain = ''hotel'',
              turns = [(0, \<lparr>turn_belief = [''hotel-area-east''],
                 pred_belief = [''hotel-area-east'', ''hotel-area-west'', ''hotel-area-west'']\<rparr>)]\<rparr>)])],
      result = Inl KeyError\<rparr>"
    by (simp add: evaluate_model_def run_defs row_east_def row_west_def true_divide_simps)
  then have m: "(''zeroshot_slot_acc.json'',
          Slot_acc [(''hotel-area'', (3, 1, 6004799503160661 / 18014398509481984))])
      \<in> set (files (evaluate_model (\<lambda>p slots. Inl KeyError) [[row_east, row_west], [row_west]]
            [''hotel-area''] ''zeroshot''))"
    by simp
  have ok: "evaluate_model (\<lambda>p slots. Inr (0, 1 / 2, 0)) [[row_east, row_west], [row_west]] [''hotel-area''] ''zeroshot'' =
     \<lparr>files =
        [(''zeroshot_slot_acc.json'',
          Slot_acc [(''hotel-area'', (3, 1, 6004799503160661 / 18014398509481984))]),
         (''zeroshot_prediction.json'',
          Prediction [(''D1'', \<lparr>domain = ''hotel'',
              turns = [(0, \<lparr>turn_belief = [''hotel-area-east''],
                 pred_belief = [''hotel-area-east'', ''hotel-area-west'', ''hotel-area-west'']\<rparr>)]\<rparr>)]),
         (''zeroshot_result.json'',
          Metrics [(''Joint Acc'', 0), (''Turn Acc'', 0), (''Joint F1'', 1 / 2)])],
      result = Inr [(''D1'', \<lparr>domain = ''hotel'',
              turns = [(0, \<lparr>turn_belief = [''hotel-area-east''],
                 pred_belief = [''hotel-area-east'', ''hotel-area-west'', ''hotel-area-west'']\<rparr>)]\<rparr>)]\<rparr>"
    by (simp add: evaluate_model_def run_defs row_east_def row_west_def true_divide_simps)
  have cnt: "total_count ''hotel-area'' (concat [[row_east, row_west], [row_west]]) = 3"
    "hit_count ''hotel-area'' (concat [[row_east, row_west], [row_west]]) = 1"
    "true_divide 1 3 = Inr (6004799503160661 / 18014398509481984)"
    by (simp_all add: total_count_def hit_count_def row_east_def row_west_def true_divide_simps)
  from persisted_documents[OF m] ev ok cnt show ?thesis
    by (simp only: simp_thms)
qed

text \<open>
  C8, as the code has it. A slot whose counters are 10 rows and 7 hits when the logger is
  finalised gets the double nearest to 7/10, which is 3152519739159347 / 2^52 (Python
  writes it 0.7): it lies within half a unit in the last place, 2^-54, of 7/10.
\<close>

theorem finalize_seven_of_ten:
  assumes "map_of lg s = Some (10, 7, a)" and "finalize lg = Inr lg'"
  shows "map_of lg' s = Some (10, 7, 3152519739159347 / 4503599627370496) \<and>
         true_divide 7 10 = Inr (3152519739159347 / 4503599627370496) \<and>
         \<bar>3152519739159347 / 4503599627370496 - 7 / 10\<bar> \<le> (1 / 2 ^ 54 :: rat)"
proof -
  have d: "true_divide 7 10 = Inr (3152519739159347 / 4503599627370496)"
    by (simp add: true_divide_simps)
  from map_of_finalize[OF assms(2) assms(1)] obtain r
    where r: "true_divide 7 10 = Inr r" and m: "map_of lg' s = Some (10, 7, r)" by blast
  from r d have "r = 3152519739159347 / 4503599627370496" by (simp only: sum.inject)
  with m d show ?thesis by simp
qed

theorem finalize_seven_of_ten_witness:
  "map_of [(''hotel-area'', (10, 7, 0))] ''hotel-area'' = Some (10, 7, 0) \<and>
   finalize [(''hotel-area'', (10, 7, 0))] =
     Inr [(''hotel-area'', (10, 7, 3152519739159347 / 4503599627370496))]"
proof -
  have a: "map_of [(''hotel-area'', (10, 7, 0::rat))] ''hotel-area'' = Some (10::int, 7::int, 0)"
    by simp
  have b: "finalize [(''hotel-area'', (10, 7, 0))] =
     Inr [(''hotel-area'', (10, 7, 3152519739159347 / 4503599627370496))]"
    by (simp add: true_divide_simps)
  from finalize_seven_of_ten[OF a b] a b show ?thesis by simp
qed

text \<open>
  C8 as the specification words it has the ratio equal to the rational 7/10. No double is
  7/10; the stored one differs from it.
\<close>

theorem seven_of_ten_exact_counterexample:
  "finalize [(''hotel-area'', (10, 7, 0))] =
     Inr [(''hotel-area'', (10, 7, 3152519739159347 / 4503599627370496))] \<and>
   (3152519739159347 / 4503599627370496 :: rat) \<noteq> 7 / 10"
  by (simp add: true_divide_simps)

text \<open>
  C9. Two rows of the same dialogue, turn and slot, both with a generated value other than
  \<open>''none''\<close>, ingested one after the other: the second ingestion succeeds, and the
  predicted belief of the turn is the old one followed by both entries, in the order of
  ingestion, whether the two values are equal or not.
\<close>

theorem ingest_twice_appends_both:
  assumes "gen_value e1 \<noteq> ''none''" and "gen_value e2 \<noteq> ''none''"
      and "batch_ID e2 = batch_ID e1" and "batch_turn_id e2 = batch_turn_id e1"
      and "batch_slot_text e2 = batch_slot_text e1"
      and "ingest p e1 = Inr p1"
  shows "\<exists>p2. ingest p1 e2 = Inr p2 \<and>
           pred_belief_of p2 (batch_ID e1) (batch_turn_id e1) =
             pred_belief_of p (batch_ID e1) (batch_turn_id e1) @
               [batch_slot_text e1 @ ''-'' @ gen_value e1, batch_slot_text e1 @ ''-'' @ gen_value e2]"
proof -
  from ingest_lookup_same[OF assms(6)] have "lookup_turn p1 (batch_ID e1) (batch_turn_id e1) \<noteq> None"
    by simp
  then have "map_of p1 (batch_ID e2) \<noteq> None"
    by (auto simp: lookup_turn_def assms(3) split: option.splits)
  then obtain p2 where 2: "ingest p1 e2 = Inr p2" using ingest_total[of p1 e2] by blast
  from pred_belief_of_ingest[OF assms(6)] pred_belief_of_ingest[OF 2] assms
  have "pred_belief_of p2 (batch_ID e1) (batch_turn_id e1) =
             pred_belief_of p (batch_ID e1) (batch_turn_id e1) @
               [batch_slot_text e1 @ ''-'' @ gen_value e1, batch_slot_text e1 @ ''-'' @ gen_value e2]"
    by simp
  with 2 show ?thesis by blast
qed

theorem ingest_twice_appends_both_witness:
  "ingest [] row_east =
      Inr [(''D1'', \<lparr>domain = ''hotel'',
              turns = [(0, \<lparr>turn_belief = [''hotel-area-east''],
                             pred_belief = [''hotel-area-east'']\<rparr>)]\<rparr>)] \<and>
   ingest [(''D1'', \<lparr>domain = ''hotel'',
              turns = [(0, \<lparr>turn_belief = [''hotel-area-east''],
                             pred_belief = [''hotel-area-east'']\<rparr>)]\<rparr>)] row_west =
      Inr [(''D1'', \<lparr>domain = ''hotel'',
              turns = [(0, \<lparr>turn_belief = [''hotel-area-east''],
                             pred_belief = [''hotel-area-east'', ''hotel-area-west'']\<rparr>)]\<rparr>)] \<and>
   ingest [(''D1'', \<lparr>domain = ''hotel'',
              turns = [(0, \<lparr>turn_belief = [''hotel-area-east''],
                             pred_belief = [''hotel-area-east'']\<rparr>)]\<rparr>)] row_east =
      Inr [(''D1'', \<lparr>domain = ''hotel'',
              turns = [(0, \<lparr>turn_belief = [''hotel-area-east''],
                             pred_belief = [''hotel-area-east'', ''hotel-area-east'']\<rparr>)]\<rparr>)]"
proof -
  have a: "gen_value row_east \<noteq> ''none''" "gen_value row_west \<noteq> ''none''"
    "batch_ID row_west = batch_ID row_east" "batch_turn_id row_west = batch_turn_id row_east"
    "batch_slot_text row_west = batch_slot_text row_east"
    by (simp_all add: row_east_def row_west_def)
  have b: "ingest [] row_east =
      Inr [(''D1'', \<lparr>domain = ''hotel'',
              turns = [(0, \<lparr>turn_belief = [''hotel-area-east''],
                             pred_belief = [''hotel-area-east'']\<rparr>)]\<rparr>)]"
    by (simp add: ingest_defs row_east_def)
  from ingest_twice_appends_both[OF a b] b show ?thesis
    by (simp add: ingest_defs row_east_def row_west_def)
qed

text \<open>
  C10. At any point of a pass, a row whose slot text is not in \<open>ALL_SLOTS\<close> makes the
  update of the slot logger raise \<open>KeyError\<close>: the logger has the keys it was created
  with. The row is therefore never accepted, and a pass that meets it writes no file. (The
  error of the row is \<open>KeyError\<close> unless the accumulator fails first, on a new dialogue
  that lists no domain.)
\<close>

theorem unknown_slot_KeyError:
  assumes "batch_slot_text e \<notin> set ALL_SLOTS"
      and "process_loader (init_state ALL_SLOTS) seen = Inr st"
  shows "record_slot (slot_logger st) e = Inl KeyError \<and>
         process_example st e =
           Inl (if map_of (predictions st) (batch_ID e) = None \<and> batch_domains e = []
                then IndexError else KeyError) \<and>
         evaluate_model evaluate_metrics (seen @ [[e]]) ALL_SLOTS prefix =
           \<lparr>files = [],
            result = Inl (if map_of (predictions st) (batch_ID e) = None \<and> batch_domains e = []
                          then IndexError else KeyError)\<rparr>"
proof -
  from reachable_logger_keys[OF assms(2)] assms(1)
  have "map_of (slot_logger st) (batch_slot_text e) = None" by simp
  then have r: "record_slot (slot_logger st) e = Inl KeyError" by (rule record_slot_None)
  have pe: "process_example st e =
           Inl (if map_of (predictions st) (batch_ID e) = None \<and> batch_domains e = []
                then IndexError else KeyError)"
  proof (cases "ingest (predictions st) e")
    case (Inl err)
    from ingest_Inl_IndexError[OF Inl] Inl show ?thesis by (simp add: process_example_def)
  next
    case (Inr p')
    have "\<not> (map_of (predictions st) (batch_ID e) = None \<and> batch_domains e = [])"
    proof
      assume "map_of (predictions st) (batch_ID e) = None \<and> batch_domains e = []"
      then have "ingest (predictions st) e = Inl IndexError"
        by (simp add: ingest_def new_dialogue_def)
      with Inr show False by simp
    qed
    with Inr r show ?thesis by (simp add: process_example_def)
  qed
  from assms(2) have "process_batch (init_state ALL_SLOTS) (concat seen) = Inr st"
    by (simp add: process_loader_concat)
  then have "process_loader (init_state ALL_SLOTS) (seen @ [[e]]) = process_example st e"
    by (simp add: process_loader_concat process_batch_append split: sum.splits)
  with pe have "evaluate_model evaluate_metrics (seen @ [[e]]) ALL_SLOTS prefix =
           \<lparr>files = [],
            result = Inl (if map_of (predictions st) (batch_ID e) = None \<and> batch_domains e = []
                          then IndexError else KeyError)\<rparr>"
    by (simp add: evaluate_model_def)
  with r pe show ?thesis by blast
qed

theorem unknown_slot_KeyError_witness:
  "batch_slot_text row_parking \<notin> set [''hotel-area'', ''hotel-stars''] \<and>
   process_loader (init_state [''hotel-area'', ''hotel-stars'']) [[row_east]] =
      Inr \<lparr>predictions = [(''D1'', \<lparr>domain = ''hotel'',
              turns = [(0, \<lparr>turn_belief = [''hotel-area-east''],
                             pred_belief = [''hotel-area-east'']\<rparr>)]\<rparr>)],
           slot_logger = [(''hotel-area'', (1, 1, 0)), (''hotel-stars'', (0, 0, 0))]\<rparr> \<and>
   evaluate_model (\<lambda>p slots. Inr (1, 1, 1)) ([[row_east]] @ [[row_parking]])
       [''hotel-area'', ''hotel-stars''] ''zeroshot'' =
      \<lparr>files = [], result = Inl KeyError\<rparr>"
proof -
  have a: "batch_slot_text row_parking \<notin> set [''hotel-area'', ''hotel-stars'']"
    by (simp add: row_parking_def)
  have b: "process_loader (init_state [''hotel-area'', ''hotel-stars'']) [[row_east]] =
      Inr \<lparr>predictions = [(''D1'', \<lparr>domain = ''hotel'',
              turns = [(0, \<lparr>turn_belief = [''hotel-area-east''],
                             pred_belief = [''hotel-area-east'']\<rparr>)]\<rparr>)],
           slot_logger = [(''hotel-area'', (1, 1, 0)), (''hotel-stars'', (0, 0, 0))]\<rparr>"
    by (simp add: run_defs row_east_def)
  from unknown_slot_KeyError[OF a b, of "\<lambda>p slots. Inr (1, 1, 1)" "''zeroshot''"] a b
  show ?thesis by (simp add: row_parking_def)
qed

end
